theory Spec2Isabelle
  imports Complex_Main "HOL-Library.Multiset"
begin

section \<open>Values of the JavaScript runtime\<close>

text \<open>
  A JavaScript number is modelled as an \<open>option\<close>: \<open>None\<close> is \<open>NaN\<close>, \<open>Some v\<close> a
  finite number. Millisecond and minute counts are integers; distances and quotients are
  reals. Arithmetic with \<open>NaN\<close> gives \<open>NaN\<close> and every comparison with \<open>NaN\<close> is false.
  A \<open>Date\<close> is its time value in milliseconds: \<open>None\<close> is the Invalid Date.
  Numbers are exact: the rounding of doubles and the range limit of \<open>Date\<close> (8.64e15
  milliseconds either side of the epoch) are left out.
\<close>

type_synonym date = "int option"

fun num_add :: "int option \<Rightarrow> int option \<Rightarrow> int option" where
  "num_add (Some a) (Some b) = Some (a + b)"
| "num_add _ _ = None"

fun num_sub :: "int option \<Rightarrow> int option \<Rightarrow> int option" where
  "num_sub (Some a) (Some b) = Some (a - b)"
| "num_sub _ _ = None"

fun num_mul :: "int option \<Rightarrow> int option \<Rightarrow> int option" where
  "num_mul (Some a) (Some b) = Some (a * b)"
| "num_mul _ _ = None"

fun num_gt :: "('n::ord) option \<Rightarrow> 'n option \<Rightarrow> bool" where
  "num_gt (Some a) (Some b) = (a > b)"
| "num_gt _ _ = False"

fun num_lt :: "('n::ord) option \<Rightarrow> 'n option \<Rightarrow> bool" where
  "num_lt (Some a) (Some b) = (a < b)"
| "num_lt _ _ = False"

text \<open>\<open>x / 60000\<close> on a number that holds an integer.\<close>

fun div_60000 :: "int option \<Rightarrow> real option" where
  "div_60000 (Some a) = Some (real_of_int a / 60000)"
| "div_60000 None = None"

text \<open>\<open>Math.ceil(v / 60)\<close> on an integer \<open>v\<close>.\<close>

definition ceil_div_60 :: "int \<Rightarrow> int" where
  "ceil_div_60 v = \<lceil>real_of_int v / 60\<rceil>"

text \<open>
  The \<open>durationMinutes\<close> property of a task as the JSON of the extractor can hold it:
  absent, \<open>null\<close> or a number of minutes.
\<close>

datatype duration_value = DurationUndefined | DurationNull | DurationNumber int

text \<open>\<open>ToNumber\<close>, as applied by \<open>task.durationMinutes * 60 * 1000\<close>.\<close>

fun duration_to_number :: "duration_value \<Rightarrow> int option" where
  "duration_to_number DurationUndefined = None"
| "duration_to_number DurationNull = Some 0"
| "duration_to_number (DurationNumber n) = Some n"

text \<open>\<open>task.durationMinutes || 30\<close>: the left operand when it is truthy, else 30.\<close>

fun duration_or_30 :: "duration_value \<Rightarrow> int" where
  "duration_or_30 (DurationNumber n) = (if n = 0 then 30 else n)"
| "duration_or_30 _ = 30"

text \<open>
  The \<open>mustArriveBy\<close> property: absent, \<open>null\<close>, an ISO 8601 timestamp (given by the
  time value in milliseconds it denotes), or a string that \<open>Date\<close> cannot parse.
\<close>

datatype deadline_value =
  DeadlineUndefined | DeadlineNull | IsoTimestamp int | Unparseable string

text \<open>Truthiness, as tested by \<open>task.fixedTime && task.mustArriveBy\<close>.\<close>

fun deadline_truthy :: "deadline_value \<Rightarrow> bool" where
  "deadline_truthy DeadlineUndefined = False"
| "deadline_truthy DeadlineNull = False"
| "deadline_truthy (IsoTimestamp t) = True"
| "deadline_truthy (Unparseable s) = (s \<noteq> [])"

text \<open>\<open>new Date(task.mustArriveBy)\<close>: \<open>new Date(null)\<close> is the epoch.\<close>

fun new_Date :: "deadline_value \<Rightarrow> date" where
  "new_Date DeadlineUndefined = None"
| "new_Date DeadlineNull = Some 0"
| "new_Date (IsoTimestamp t) = Some t"
| "new_Date (Unparseable s) = None"

datatype error = TypeError

section \<open>Tasks, legs and schedule entries\<close>

text \<open>
  Coordinates are resolved before the sequencer runs (\<open>resolveLocations\<close> keeps a task
  only with numeric \<open>lat\<close> and \<open>lng\<close>), so they are real numbers.
\<close>

record latlng =
  lat :: real
  lng :: real

record place = latlng +
  title :: string
  address :: string

record task = place +
  task_id :: string
  durationMinutes :: duration_value
  fixedTime :: bool
  mustArriveBy :: deadline_value

text \<open>A leg of the route of the directions service; \<open>duration_seconds\<close> is \<open>leg.duration.value\<close>.\<close>

record leg =
  duration_seconds :: int

text \<open>
  The entry of the backward-from-deadline builder (src/src/App.jsx). \<open>departTime\<close>,
  \<open>arriveTime\<close> and \<open>deadline\<close> are \<open>null\<close> (\<open>None\<close>) or a \<open>Date\<close>.
\<close>

record entry = place +
  taskId :: string
  departTime :: "date option"
  arriveTime :: "date option"
  durationMinutes_entry :: int
  travelMinutes :: int
  isFixed :: bool
  deadline :: "date option"

text \<open>
  The entry of the forward builder (src/unnamed/part_000). \<open>deadline_item\<close> and \<open>isLate\<close>
  are set for a fixed task only; \<open>None\<close> is the absent property.
\<close>

record scheduleItem = place +
  taskId_item :: string
  startTime :: date
  endTime :: date
  travelMinutes_item :: int
  isFixed_item :: bool
  deadline_item :: "date option"
  isLate :: "bool option"

section \<open>The backward-from-deadline builder\<close>

definition BUFFER_MINUTES :: int where
  "BUFFER_MINUTES = 5"

text \<open>The body of the \<open>forEach\<close> callback of \<open>createTimeAwareSchedule\<close> in src/src/App.jsx.\<close>

definition schedule_entry :: "task \<Rightarrow> leg \<Rightarrow> entry" where
  "schedule_entry t l =
     (let travel = ceil_div_60 (duration_seconds l);
          timed = (fixedTime t \<and> deadline_truthy (mustArriveBy t));
          arrive = (if timed
                    then Some (num_sub (new_Date (mustArriveBy t)) (Some (BUFFER_MINUTES * 60 * 1000)))
                    else None);
          depart = (case arrive of
                      Some a \<Rightarrow> Some (num_sub a (Some (travel * 60 * 1000)))
                    | None \<Rightarrow> None)
      in \<lparr> lat = lat t, lng = lng t, title = title t, address = address t,
           taskId = task_id t,
           departTime = depart,
           arriveTime = arrive,
           durationMinutes_entry = duration_or_30 (durationMinutes t),
           travelMinutes = travel,
           isFixed = fixedTime t,
           deadline = (if fixedTime t then Some (new_Date (mustArriveBy t)) else None) \<rparr>)"

text \<open>
  \<open>tasks.forEach((task, i) => ...)\<close> with \<open>route.legs[i]\<close>: the two lists are walked
  together. A task without a leg reads \<open>duration\<close> of \<open>undefined\<close>, which throws a
  \<open>TypeError\<close> out of the builder; legs beyond the tasks are never read.
\<close>

fun createTimeAwareSchedule :: "task list \<Rightarrow> leg list \<Rightarrow> error + entry list" where
  "createTimeAwareSchedule [] legs = Inr []"
| "createTimeAwareSchedule (t # ts) [] = Inl TypeError"
| "createTimeAwareSchedule (t # ts) (l # ls) =
     (case createTimeAwareSchedule ts ls of
        Inl e \<Rightarrow> Inl e
      | Inr rest \<Rightarrow> Inr (schedule_entry t l # rest))"

section \<open>The forward builder\<close>

text \<open>The object \<open>scheduleItem\<close> of src/unnamed/part_000, with the two properties a fixed task adds.\<close>

definition schedule_item :: "task \<Rightarrow> int \<Rightarrow> date \<Rightarrow> date \<Rightarrow> scheduleItem" where
  "schedule_item t travel start end =
     \<lparr> lat = lat t, lng = lng t, title = title t, address = address t,
       taskId_item = task_id t,
       startTime = start,
       endTime = end,
       travelMinutes_item = travel,
       isFixed_item = fixedTime t,
       deadline_item = (if fixedTime t then Some (new_Date (mustArriveBy t)) else None),
       isLate = (if fixedTime t then Some (num_gt start (new_Date (mustArriveBy t))) else None) \<rparr>"

text \<open>
  The \<open>forEach\<close> of the forward builder; the third argument is \<open>currentDateTime\<close>, the
  running clock the callback reads and overwrites.
\<close>

fun forward_loop :: "task list \<Rightarrow> leg list \<Rightarrow> date \<Rightarrow> error + scheduleItem list" where
  "forward_loop [] legs currentDateTime = Inr []"
| "forward_loop (t # ts) [] currentDateTime = Inl TypeError"
| "forward_loop (t # ts) (l # ls) currentDateTime =
     (let travel = ceil_div_60 (duration_seconds l);
          start = num_add currentDateTime (Some (travel * 60 * 1000));
          end = num_add start
                  (num_mul (num_mul (duration_to_number (durationMinutes t)) (Some 60)) (Some 1000))
      in case forward_loop ts ls end of
           Inl e \<Rightarrow> Inl e
         | Inr rest \<Rightarrow> Inr (schedule_item t travel start end # rest))"

text \<open>
  \<open>createTimeAwareSchedule\<close> of src/unnamed/part_000; \<open>currentTime\<close> is a \<open>Date\<close>. The
  parameter \<open>userLocation\<close> is not read by the function and is left out.
\<close>

definition createTimeAwareSchedule_forward ::
    "task list \<Rightarrow> leg list \<Rightarrow> date \<Rightarrow> error + scheduleItem list" where
  "createTimeAwareSchedule_forward tasks legs currentTime = forward_loop tasks legs currentTime"

section \<open>Status classification\<close>

datatype status = NoStatus | LATE | TIGHT | ON_TIME

text \<open>\<open>statusIcon\<close> in \<open>handleRouteCalculated\<close> of src/unnamed/part_000.\<close>

definition statusIcon_forward :: "scheduleItem \<Rightarrow> status" where
  "statusIcon_forward s =
     (if isFixed_item s then
        (let minutesBeforeDeadline =
               div_60000 (num_sub (case deadline_item s of None \<Rightarrow> None | Some d \<Rightarrow> d) (startTime s))
         in if isLate s = Some True then LATE
            else if num_lt minutesBeforeDeadline (Some 5) then TIGHT
            else ON_TIME)
      else NoStatus)"

text \<open>
  \<open>statusIcon\<close> in \<open>handleRouteCalculated\<close> of src/src/App.jsx. A \<open>Date\<close> object is
  truthy also when it is invalid, so \<open>s.arriveTime && s.deadline\<close> tests for \<open>null\<close>.
\<close>

definition statusIcon :: "entry \<Rightarrow> status" where
  "statusIcon s =
     (if isFixed s then
        (case (arriveTime s, deadline s) of
           (Some a, Some d) \<Rightarrow>
             (if num_gt a d then LATE
              else if num_lt (div_60000 (num_sub d a)) (Some 5) then TIGHT
              else ON_TIME)
         | _ \<Rightarrow> NoStatus)
      else NoStatus)"

section \<open>The sequencer\<close>

text \<open>
  \<open>Array.prototype.sort\<close> with a comparator. A comparator result of \<open>NaN\<close> counts as
  \<open>+0\<close>. The sort is stable; for a consistent comparator that fixes the result, and it
  is computed here by stable insertion, an element moving right only past elements the
  comparator puts strictly before it. For a comparator that is not consistent (one that
  gives \<open>NaN\<close> against some elements only) ECMAScript leaves the order to the engine;
  insertion is one such order, and on a short array it is what an engine that sorts short
  runs by insertion computes.
\<close>

definition SortCompare :: "('a \<Rightarrow> 'a \<Rightarrow> ('n::{zero,ord}) option) \<Rightarrow> 'a \<Rightarrow> 'a \<Rightarrow> 'n" where
  "SortCompare comparefn x y = (case comparefn x y of None \<Rightarrow> 0 | Some v \<Rightarrow> v)"

fun sort_insert :: "('a \<Rightarrow> 'a \<Rightarrow> ('n::{zero,ord}) option) \<Rightarrow> 'a \<Rightarrow> 'a list \<Rightarrow> 'a list" where
  "sort_insert comparefn x [] = [x]"
| "sort_insert comparefn x (y # ys) =
     (if SortCompare comparefn x y > 0 then y # sort_insert comparefn x ys else x # y # ys)"

definition Array_sort :: "('a \<Rightarrow> 'a \<Rightarrow> ('n::{zero,ord}) option) \<Rightarrow> 'a list \<Rightarrow> 'a list" where
  "Array_sort comparefn xs = foldr (sort_insert comparefn) xs []"

text \<open>The comparator of the fixed tasks: \<open>new Date(a.mustArriveBy) - new Date(b.mustArriveBy)\<close>.\<close>

definition by_deadline :: "task \<Rightarrow> task \<Rightarrow> int option" where
  "by_deadline a b = num_sub (new_Date (mustArriveBy a)) (new_Date (mustArriveBy b))"

text \<open>
  The comparator of the flexible tasks. \<open>distanceBetween\<close> wraps
  \<open>google.maps.geometry.spherical.computeDistanceBetween\<close>, a library outside the
  repository: it is a parameter, a function of the four coordinates to a finite distance.
\<close>

definition by_distance ::
    "(real \<Rightarrow> real \<Rightarrow> real \<Rightarrow> real \<Rightarrow> real) \<Rightarrow> real \<times> real \<Rightarrow> task \<Rightarrow> task \<Rightarrow> real option" where
  "by_distance distanceBetween referencePoint a b =
     Some (distanceBetween (fst referencePoint) (snd referencePoint) (lat a) (lng a) -
           distanceBetween (fst referencePoint) (snd referencePoint) (lat b) (lng b))"

text \<open>
  \<open>calculateOptimalRoute\<close> of the map component, returning the \<open>finalOrder\<close> it hands to
  \<open>drawFinalRoute\<close>. The effect that calls it returns early without a user location.
\<close>

definition calculateOptimalRoute ::
    "(real \<Rightarrow> real \<Rightarrow> real \<Rightarrow> real \<Rightarrow> real) \<Rightarrow> latlng \<Rightarrow> task list \<Rightarrow> task list" where
  "calculateOptimalRoute distanceBetween userLocation tasks =
     (let fixedTasks = Array_sort by_deadline (filter (\<lambda>t. fixedTime t) tasks);
          flexibleTasks = filter (\<lambda>t. \<not> fixedTime t) tasks;
          orderedFlexible =
            (if length flexibleTasks > 0 then
               (let referencePoint =
                      (if length fixedTasks > 0
                       then (lat (last fixedTasks), lng (last fixedTasks))
                       else (lat userLocation, lng userLocation))
                in Array_sort (by_distance distanceBetween referencePoint) flexibleTasks)
             else flexibleTasks)
      in fixedTasks @ orderedFlexible)"

section \<open>Notions the properties are stated with\<close>

text \<open>The number of fixed tasks: the length of the leading block of the final order.\<close>

definition fixedCount :: "task list \<Rightarrow> nat" where
  "fixedCount tasks = length (filter (\<lambda>t. fixedTime t) tasks)"

text \<open>
  Non-decreasing deadline order: no task of the list comes after a task whose deadline is
  strictly later, the deadlines compared as the dates \<open>new Date(mustArriveBy)\<close>.
\<close>

definition non_decreasing_deadlines :: "task list \<Rightarrow> bool" where
  "non_decreasing_deadlines ts =
     sorted_wrt (\<lambda>a b. \<not> num_gt (new_Date (mustArriveBy a)) (new_Date (mustArriveBy b))) ts"

text \<open>The time value of a task's deadline, 0 standing in for the Invalid Date.\<close>

definition deadline_ms :: "task \<Rightarrow> int" where
  "deadline_ms t = (case new_Date (mustArriveBy t) of Some v \<Rightarrow> v | None \<Rightarrow> 0)"

text \<open>
  A malformed task: \<open>fixedTime\<close> is true and \<open>mustArriveBy\<close> is no timestamp (absent,
  \<open>null\<close> or unparseable).
\<close>

fun usable_deadline :: "deadline_value \<Rightarrow> bool" where
  "usable_deadline (IsoTimestamp t) = True"
| "usable_deadline _ = False"

definition malformed :: "task \<Rightarrow> bool" where
  "malformed t = (fixedTime t \<and> \<not> usable_deadline (mustArriveBy t))"

text \<open>
  The treatment the specification words for a malformed task, "treat the task as flexible
  if no usable deadline is present": the task with its flag cleared. The sequencer is
  compared with itself run on the tasks so treated.
\<close>

definition spec_demote_malformed :: "task \<Rightarrow> task" where
  "spec_demote_malformed t = (if malformed t then t\<lparr>fixedTime := False\<rparr> else t)"

text \<open>Data for the examples: a distance function, an origin and tasks by their fields.\<close>

definition taxicab :: "real \<Rightarrow> real \<Rightarrow> real \<Rightarrow> real \<Rightarrow> real" where
  "taxicab lat1 lng1 lat2 lng2 = \<bar>lat1 - lat2\<bar> + \<bar>lng1 - lng2\<bar>"

definition origin :: latlng where
  "origin = \<lparr> lat = 0, lng = 0 \<rparr>"

definition errand :: "string \<Rightarrow> real \<Rightarrow> real \<Rightarrow> duration_value \<Rightarrow> bool \<Rightarrow> deadline_value \<Rightarrow> task" where
  "errand i la lo dur fx due =
     \<lparr> lat = la, lng = lo, title = i, address = [],
       task_id = i, durationMinutes = dur, fixedTime = fx, mustArriveBy = due \<rparr>"

section \<open>Properties\<close>

lemma ceil_div_60_code: "ceil_div_60 v = - ((- v) div 60)"
  unfolding ceil_div_60_def ceiling_def
  by (simp add: floor_divide_of_int_eq [symmetric, where ?'a = real] del: floor_divide_of_int_eq)

subsection \<open>The sort\<close>

lemma mset_sort_insert: "mset (sort_insert c x xs) = add_mset x (mset xs)"
  by (induction xs) auto

lemma mset_Array_sort: "mset (Array_sort c xs) = mset xs"
  unfolding Array_sort_def by (induction xs) (auto simp: mset_sort_insert)

lemma set_Array_sort: "set (Array_sort c xs) = set xs"
  using mset_Array_sort [of c xs] by (metis set_mset_mset)

lemma length_Array_sort: "length (Array_sort c xs) = length xs"
  using mset_Array_sort [of c xs] by (metis size_mset)

lemma sort_insert_insort_key:
  fixes f :: "'a \<Rightarrow> 'k::linorder"
  assumes "\<And>y. y \<in> set ys \<Longrightarrow> (SortCompare c x y > 0) = (f x > f y)"
  shows "sort_insert c x ys = insort_key f x ys"
  using assms by (induction ys) (auto simp: not_less)

lemma Array_sort_sort_key:
  fixes f :: "'a \<Rightarrow> 'k::linorder"
  assumes "\<And>x y. x \<in> set xs \<Longrightarrow> y \<in> set xs \<Longrightarrow> (SortCompare c x y > 0) = (f x > f y)"
  shows "Array_sort c xs = sort_key f xs"
  using assms
proof (induction xs)
  case Nil
  show ?case by (simp add: Array_sort_def)
next
  case (Cons x xs)
  have ih: "Array_sort c xs = sort_key f xs"
    using Cons by simp
  have "Array_sort c (x # xs) = sort_insert c x (Array_sort c xs)"
    by (simp add: Array_sort_def)
  also have "\<dots> = insort_key f x (Array_sort c xs)"
    by (rule sort_insert_insort_key) (simp add: set_Array_sort Cons.prems)
  finally show ?case
    by (simp add: ih sort_key_def)
qed

lemma by_distance_sort:
  "Array_sort (by_distance d r) xs = sort_key (\<lambda>t. d (fst r) (snd r) (lat t) (lng t)) xs"
  by (rule Array_sort_sort_key) (simp add: SortCompare_def by_distance_def)

lemma by_deadline_sort:
  assumes "\<And>t. t \<in> set xs \<Longrightarrow> new_Date (mustArriveBy t) \<noteq> None"
  shows "Array_sort by_deadline xs = sort_key deadline_ms xs"
proof (rule Array_sort_sort_key)
  fix x y assume "x \<in> set xs" "y \<in> set xs"
  then obtain a b where "new_Date (mustArriveBy x) = Some a" "new_Date (mustArriveBy y) = Some b"
    using assms by blast
  then show "(SortCompare by_deadline x y > 0) = (deadline_ms x > deadline_ms y)"
    by (simp add: SortCompare_def by_deadline_def deadline_ms_def)
qed

subsection \<open>The shape of the final order\<close>

lemma Array_sort_Nil_iff: "(Array_sort c xs = []) = (xs = [])"
  using length_Array_sort [of c xs] by (metis length_0_conv)

lemma route_split:
  "calculateOptimalRoute d u tasks =
     Array_sort by_deadline (filter (\<lambda>t. fixedTime t) tasks) @
     Array_sort (by_distance d
        (if filter (\<lambda>t. fixedTime t) tasks \<noteq> []
         then (lat (last (Array_sort by_deadline (filter (\<lambda>t. fixedTime t) tasks))),
               lng (last (Array_sort by_deadline (filter (\<lambda>t. fixedTime t) tasks))))
         else (lat u, lng u)))
       (filter (\<lambda>t. \<not> fixedTime t) tasks)"
proof (cases "filter (\<lambda>t. \<not> fixedTime t) tasks = []")
  case True
  then show ?thesis
    by (simp add: calculateOptimalRoute_def Let_def Array_sort_def)
next
  case False
  then show ?thesis
    by (simp add: calculateOptimalRoute_def Let_def length_Array_sort Array_sort_Nil_iff)
qed

lemma take_route:
  "take (fixedCount tasks) (calculateOptimalRoute d u tasks) =
     Array_sort by_deadline (filter (\<lambda>t. fixedTime t) tasks)"
  by (simp add: route_split fixedCount_def length_Array_sort)

lemma drop_route:
  "drop (fixedCount tasks) (calculateOptimalRoute d u tasks) =
     Array_sort (by_distance d
        (if fixedCount tasks > 0
         then (lat (last (take (fixedCount tasks) (calculateOptimalRoute d u tasks))),
               lng (last (take (fixedCount tasks) (calculateOptimalRoute d u tasks))))
         else (lat u, lng u)))
       (filter (\<lambda>t. \<not> fixedTime t) tasks)"
  unfolding take_route
  by (simp add: route_split fixedCount_def length_Array_sort)

lemma fixed_iff_leading:
  assumes "i < length (calculateOptimalRoute d u tasks)"
  shows "fixedTime (calculateOptimalRoute d u tasks ! i) = (i < fixedCount tasks)"
proof -
  let ?out = "calculateOptimalRoute d u tasks"
  let ?n = "fixedCount tasks"
  have F: "set (take ?n ?out) = set (filter (\<lambda>t. fixedTime t) tasks)"
    by (simp only: take_route set_Array_sort)
  have X: "set (drop ?n ?out) = set (filter (\<lambda>t. \<not> fixedTime t) tasks)"
    by (subst drop_route) (simp only: set_Array_sort)
  show ?thesis
  proof (cases "i < ?n")
    case True
    then have "take ?n ?out ! i \<in> set (take ?n ?out)"
      using assms by (intro nth_mem) simp
    then have "?out ! i \<in> set (filter (\<lambda>t. fixedTime t) tasks)"
      using True F by simp
    then show ?thesis
      using True by simp
  next
    case False
    then have "drop ?n ?out ! (i - ?n) \<in> set (drop ?n ?out)"
      using assms by (intro nth_mem) simp
    moreover have "drop ?n ?out ! (i - ?n) = ?out ! i"
      using False assms by simp
    ultimately have "?out ! i \<in> set (filter (\<lambda>t. \<not> fixedTime t) tasks)"
      using X by simp
    then show ?thesis
      using False by simp
  qed
qed

lemma sorted_deadlines:
  assumes "\<And>t. t \<in> set xs \<Longrightarrow> new_Date (mustArriveBy t) \<noteq> None"
  shows "non_decreasing_deadlines (Array_sort by_deadline xs)"
proof -
  have s: "sorted (map deadline_ms (sort_key deadline_ms xs))"
    by simp
  have v: "\<And>t. t \<in> set (sort_key deadline_ms xs) \<Longrightarrow> new_Date (mustArriveBy t) = Some (deadline_ms t)"
    using assms by (fastforce simp: deadline_ms_def)
  have "sorted_wrt (\<lambda>a b. deadline_ms a \<le> deadline_ms b) (sort_key deadline_ms xs)"
    using s by (simp add: sorted_map)
  then have "sorted_wrt (\<lambda>a b. \<not> num_gt (new_Date (mustArriveBy a)) (new_Date (mustArriveBy b)))
               (sort_key deadline_ms xs)"
    by (rule sorted_wrt_mono_rel [rotated]) (simp add: v)
  then show ?thesis
    by (simp add: non_decreasing_deadlines_def by_deadline_sort [OF assms])
qed

subsection \<open>The builders\<close>

lemma num_mul_60_1000: "num_mul (num_mul x (Some 60)) (Some 1000) = num_mul x (Some 60000)"
  by (cases x) simp_all

lemma forward_loop_total:
  "length ts \<le> length ls \<Longrightarrow> \<exists>sched. forward_loop ts ls c = Inr sched \<and> length sched = length ts"
proof (induction ts ls c rule: forward_loop.induct)
  case (1 legs c)
  show ?case by simp
next
  case (2 t ts c)
  then show ?case by simp
next
  case (3 t ts l ls c)
  then show ?case by (fastforce simp: Let_def)
qed

lemma forward_loop_raises:
  "length ls < length ts \<Longrightarrow> forward_loop ts ls c = Inl TypeError"
proof (induction ts ls c rule: forward_loop.induct)
  case (1 legs c)
  then show ?case by simp
next
  case (2 t ts c)
  show ?case by simp
next
  case (3 t ts l ls c)
  then show ?case by (simp add: Let_def)
qed

lemma backward_total:
  "length ts \<le> length ls \<Longrightarrow>
     createTimeAwareSchedule ts ls = Inr (map (\<lambda>(t, l). schedule_entry t l) (zip ts ls))"
  by (induction ts ls rule: createTimeAwareSchedule.induct) simp_all

lemma backward_raises:
  "length ls < length ts \<Longrightarrow> createTimeAwareSchedule ts ls = Inl TypeError"
  by (induction ts ls rule: createTimeAwareSchedule.induct) simp_all

lemma forward_loop_recurrence:
  "length ls = length ts \<Longrightarrow> forward_loop ts ls c = Inr sched \<Longrightarrow> i < length ts \<Longrightarrow>
     taskId_item (sched ! i) = task_id (ts ! i) \<and>
     travelMinutes_item (sched ! i) = ceil_div_60 (duration_seconds (ls ! i)) \<and>
     startTime (sched ! i) =
       num_add (if i = 0 then c else endTime (sched ! (i - 1)))
               (Some (travelMinutes_item (sched ! i) * 60 * 1000)) \<and>
     endTime (sched ! i) =
       num_add (startTime (sched ! i))
               (num_mul (num_mul (duration_to_number (durationMinutes (ts ! i))) (Some 60)) (Some 1000))"
proof (induction ts ls c arbitrary: sched i rule: forward_loop.induct)
  case (1 legs c)
  then show ?case by simp
next
  case (2 t ts c)
  then show ?case by simp
next
  case (3 t ts l ls c)
  define travel where "travel = ceil_div_60 (duration_seconds l)"
  define start where "start = num_add c (Some (travel * 60 * 1000))"
  define end' where "end' = num_add start
      (num_mul (num_mul (duration_to_number (durationMinutes t)) (Some 60)) (Some 1000))"
  from "3.prems"(1) have len: "length ls = length ts" by simp
  obtain rest where rest: "forward_loop ts ls end' = Inr rest" and lrest: "length rest = length ts"
    using forward_loop_total [of ts ls end'] len by auto
  have sched: "sched = schedule_item t travel start end' # rest"
    using "3.prems"(2) rest by (simp add: Let_def travel_def start_def end'_def)
  show ?case
  proof (cases i)
    case 0
    then show ?thesis
      by (simp add: sched schedule_item_def travel_def start_def end'_def)
  next
    case (Suc j)
    with "3.prems"(3) have j: "j < length ts" by simp
    have ih: "taskId_item (rest ! j) = task_id (ts ! j) \<and>
     travelMinutes_item (rest ! j) = ceil_div_60 (duration_seconds (ls ! j)) \<and>
     startTime (rest ! j) =
       num_add (if j = 0 then end' else endTime (rest ! (j - 1)))
               (Some (travelMinutes_item (rest ! j) * 60 * 1000)) \<and>
     endTime (rest ! j) =
       num_add (startTime (rest ! j))
               (num_mul (num_mul (duration_to_number (durationMinutes (ts ! j))) (Some 60)) (Some 1000))"
      using "3.IH" [OF travel_def start_def end'_def len rest j] .
    have prev: "(if Suc j = 0 then c else endTime (sched ! (Suc j - 1)))
                  = (if j = 0 then end' else endTime (rest ! (j - 1)))"
      by (cases j) (simp_all add: sched schedule_item_def)
    show ?thesis
      unfolding Suc prev using ih by (simp add: sched)
  qed
qed

subsection \<open>The status\<close>

lemma statusIcon_forward_fixed:
  assumes "fixedTime t" "new_Date (mustArriveBy t) = Some T"
  shows "statusIcon_forward (schedule_item t travel (Some A) e)
           = (if A > T then LATE else if T - A < 5 * 60000 then TIGHT else ON_TIME)"
  using assms by (simp add: statusIcon_forward_def schedule_item_def Let_def)

lemma statusIcon_fixed:
  assumes "isFixed s" "arriveTime s = Some (Some A)" "deadline s = Some (Some T)"
  shows "statusIcon s = (if A > T then LATE else if T - A < 5 * 60000 then TIGHT else ON_TIME)"
  using assms by (simp add: statusIcon_def)

subsection \<open>The claims\<close>

lemmas example_defs = calculateOptimalRoute_def Array_sort_def SortCompare_def by_deadline_def
  by_distance_def errand_def origin_def taxicab_def fixedCount_def non_decreasing_deadlines_def
  Let_def

text \<open>
  C1, as amended. For every task list, distance function and origin, the final order is
  the fixed tasks (those with \<open>fixedTime\<close> true) as a leading block followed by all the
  flexible tasks: a position holds a fixed task exactly when it lies in the first
  \<open>fixedCount\<close> positions. When every fixed task has a deadline that \<open>Date\<close> reads (a
  timestamp, or \<open>null\<close>, read as the epoch), the leading block is in non-decreasing
  deadline order.
\<close>

theorem fixed_block_leads_in_deadline_order:
  "(\<forall>i<length (calculateOptimalRoute d u tasks).
      fixedTime (calculateOptimalRoute d u tasks ! i) = (i < fixedCount tasks)) \<and>
   mset (take (fixedCount tasks) (calculateOptimalRoute d u tasks))
      = mset (filter (\<lambda>t. fixedTime t) tasks) \<and>
   mset (drop (fixedCount tasks) (calculateOptimalRoute d u tasks))
      = mset (filter (\<lambda>t. \<not> fixedTime t) tasks) \<and>
   ((\<forall>t\<in>set tasks. fixedTime t \<longrightarrow> new_Date (mustArriveBy t) \<noteq> None) \<longrightarrow>
      non_decreasing_deadlines (take (fixedCount tasks) (calculateOptimalRoute d u tasks)))"
proof -
  have a: "\<forall>i<length (calculateOptimalRoute d u tasks).
      fixedTime (calculateOptimalRoute d u tasks ! i) = (i < fixedCount tasks)"
    by (simp add: fixed_iff_leading)
  have b: "mset (take (fixedCount tasks) (calculateOptimalRoute d u tasks))
      = mset (filter (\<lambda>t. fixedTime t) tasks)"
    by (simp add: take_route mset_Array_sort)
  have c: "mset (drop (fixedCount tasks) (calculateOptimalRoute d u tasks))
      = mset (filter (\<lambda>t. \<not> fixedTime t) tasks)"
    by (subst drop_route) (simp add: mset_Array_sort)
  have e: "(\<forall>t\<in>set tasks. fixedTime t \<longrightarrow> new_Date (mustArriveBy t) \<noteq> None) \<longrightarrow>
      non_decreasing_deadlines (take (fixedCount tasks) (calculateOptimalRoute d u tasks))"
  proof
    assume v: "\<forall>t\<in>set tasks. fixedTime t \<longrightarrow> new_Date (mustArriveBy t) \<noteq> None"
    have "non_decreasing_deadlines (Array_sort by_deadline (filter (\<lambda>t. fixedTime t) tasks))"
      by (rule sorted_deadlines) (use v in simp)
    then show "non_decreasing_deadlines (take (fixedCount tasks) (calculateOptimalRoute d u tasks))"
      by (simp add: take_route)
  qed
  show ?thesis
    by (intro conjI a b c e)
qed

text \<open>The scenario of two fixed tasks due at 09:00 and 08:30 behind a flexible one.\<close>

theorem fixed_block_leads_in_deadline_order_witness:
  "map task_id (calculateOptimalRoute taxicab origin
         [errand ''a'' 1 1 (DurationNumber 30) False DeadlineNull,
          errand ''b'' 5 5 (DurationNumber 30) True (IsoTimestamp 32400000),
          errand ''c'' 9 9 (DurationNumber 30) True (IsoTimestamp 30600000)]) = [''c'', ''b'', ''a''] \<and>
   fixedCount [errand ''a'' 1 1 (DurationNumber 30) False DeadlineNull,
          errand ''b'' 5 5 (DurationNumber 30) True (IsoTimestamp 32400000),
          errand ''c'' 9 9 (DurationNumber 30) True (IsoTimestamp 30600000)] = 2 \<and>
   non_decreasing_deadlines (take 2 (calculateOptimalRoute taxicab origin
         [errand ''a'' 1 1 (DurationNumber 30) False DeadlineNull,
          errand ''b'' 5 5 (DurationNumber 30) True (IsoTimestamp 32400000),
          errand ''c'' 9 9 (DurationNumber 30) True (IsoTimestamp 30600000)]))"
proof -
  let ?ts = "[errand ''a'' 1 1 (DurationNumber 30) False DeadlineNull,
          errand ''b'' 5 5 (DurationNumber 30) True (IsoTimestamp 32400000),
          errand ''c'' 9 9 (DurationNumber 30) True (IsoTimestamp 30600000)]"
  have v: "\<forall>t\<in>set ?ts. fixedTime t \<longrightarrow> new_Date (mustArriveBy t) \<noteq> None"
    by (simp add: errand_def)
  have n: "fixedCount ?ts = 2"
    by (simp add: fixedCount_def errand_def)
  have "non_decreasing_deadlines (take (fixedCount ?ts) (calculateOptimalRoute taxicab origin ?ts))"
    by (rule fixed_block_leads_in_deadline_order [of taxicab origin ?ts,
          THEN conjunct2, THEN conjunct2, THEN conjunct2, THEN mp, OF v])
  then have "non_decreasing_deadlines (take 2 (calculateOptimalRoute taxicab origin ?ts))"
    unfolding n .
  moreover have "map task_id (calculateOptimalRoute taxicab origin ?ts) = [''c'', ''b'', ''a'']"
    by (simp add: example_defs)
  ultimately show ?thesis
    using n by simp
qed

text \<open>
  C1 as stated, for every task list, fails: a fixed task without a deadline compares as
  \<open>NaN\<close> with every other task, the sort leaves the three tasks where they are, and the
  task due at 5000 stays ahead of the task due at 3000.
\<close>

theorem invalid_deadline_breaks_deadline_order:
  "map task_id (calculateOptimalRoute taxicab origin
         [errand ''a'' 1 1 (DurationNumber 30) True (IsoTimestamp 5000),
          errand ''b'' 5 5 (DurationNumber 30) True DeadlineUndefined,
          errand ''c'' 9 9 (DurationNumber 30) True (IsoTimestamp 3000)]) = [''a'', ''b'', ''c''] \<and>
   \<not> non_decreasing_deadlines (take 3 (calculateOptimalRoute taxicab origin
         [errand ''a'' 1 1 (DurationNumber 30) True (IsoTimestamp 5000),
          errand ''b'' 5 5 (DurationNumber 30) True DeadlineUndefined,
          errand ''c'' 9 9 (DurationNumber 30) True (IsoTimestamp 3000)]))"
  by (simp add: example_defs)

text \<open>
  C2, as amended. For a fixed stop with deadline \<open>T\<close> and arrival \<open>A\<close> (both valid dates,
  in milliseconds) the status is exactly one of three: LATE when \<open>A > T\<close>, TIGHT when
  \<open>0 \<le> T - A\<close> and \<open>T - A\<close> is under 5 minutes, ON_TIME when \<open>T - A\<close> is 5 minutes or
  more. An arrival 1 minute after \<open>T\<close> is LATE, 3 minutes before \<open>T\<close> is TIGHT, 10 minutes
  before \<open>T\<close> is ON_TIME. A stop that is not fixed has no status. This holds for the status
  of the forward schedule and for that of the backward-from-deadline schedule.
\<close>

theorem status_classification:
  "(fixedTime t \<and> new_Date (mustArriveBy t) = Some T \<longrightarrow>
      statusIcon_forward (schedule_item t travel (Some A) e)
        = (if A > T then LATE else if T - A < 5 * 60000 then TIGHT else ON_TIME) \<and>
      statusIcon_forward (schedule_item t travel (Some (T + 1 * 60000)) e) = LATE \<and>
      statusIcon_forward (schedule_item t travel (Some (T - 3 * 60000)) e) = TIGHT \<and>
      statusIcon_forward (schedule_item t travel (Some (T - 10 * 60000)) e) = ON_TIME) \<and>
   (\<not> fixedTime t \<longrightarrow> statusIcon_forward (schedule_item t travel start e) = NoStatus) \<and>
   (isFixed s \<and> arriveTime s = Some (Some A') \<and> deadline s = Some (Some T') \<longrightarrow>
      statusIcon s = (if A' > T' then LATE else if T' - A' < 5 * 60000 then TIGHT else ON_TIME)) \<and>
   (\<not> isFixed s \<longrightarrow> statusIcon s = NoStatus)"
proof -
  have "\<not> fixedTime t \<longrightarrow> statusIcon_forward (schedule_item t travel start e) = NoStatus"
    by (simp add: statusIcon_forward_def schedule_item_def)
  moreover have "\<not> isFixed s \<longrightarrow> statusIcon s = NoStatus"
    by (simp add: statusIcon_def)
  ultimately show ?thesis
    by (simp add: statusIcon_forward_fixed statusIcon_fixed)
qed

text \<open>A fixed task due at 600000 reached at 420000, and a flexible task.\<close>

theorem status_classification_witness:
  "statusIcon_forward (schedule_item
      (errand ''b'' 5 5 (DurationNumber 30) True (IsoTimestamp 600000)) 2 (Some 420000) (Some 2220000))
     = TIGHT \<and>
   statusIcon_forward (schedule_item
      (errand ''a'' 1 1 (DurationNumber 30) False DeadlineNull) 2 (Some 420000) (Some 2220000))
     = NoStatus \<and>
   statusIcon (schedule_entry (errand ''b'' 5 5 (DurationNumber 30) True (IsoTimestamp 600000))
      \<lparr> duration_seconds = 300 \<rparr>) = ON_TIME \<and>
   statusIcon (schedule_entry (errand ''a'' 1 1 (DurationNumber 30) False DeadlineNull)
      \<lparr> duration_seconds = 300 \<rparr>) = NoStatus"
  using status_classification [of "errand ''b'' 5 5 (DurationNumber 30) True (IsoTimestamp 600000)"
          600000 2 420000 "Some 2220000" "Some 420000"
          "schedule_entry (errand ''b'' 5 5 (DurationNumber 30) True (IsoTimestamp 600000))
              \<lparr> duration_seconds = 300 \<rparr>" 300000 600000]
        status_classification [of "errand ''a'' 1 1 (DurationNumber 30) False DeadlineNull"
          600000 2 420000 "Some 2220000" "Some 420000"
          "schedule_entry (errand ''a'' 1 1 (DurationNumber 30) False DeadlineNull)
              \<lparr> duration_seconds = 300 \<rparr>" 300000 600000]
  by (simp add: errand_def schedule_entry_def BUFFER_MINUTES_def Let_def)

text \<open>
  C2 as stated puts a slack of exactly 5 minutes in TIGHT; both status computations
  test \<open>< 5\<close> and give ON_TIME. In the backward-from-deadline schedule every fixed stop
  with a valid deadline has exactly that slack.
\<close>

theorem five_minutes_of_slack_is_on_time:
  "map_sum id (map (\<lambda>s. (startTime s, deadline_item s, statusIcon_forward s)))
     (createTimeAwareSchedule_forward
         [errand ''b'' 5 5 (DurationNumber 30) True (IsoTimestamp 600000)]
         [\<lparr> duration_seconds = 300 \<rparr>] (Some 0))
     = Inr [(Some 300000, Some (Some 600000), ON_TIME)] \<and>
   map_sum id (map (\<lambda>s. (arriveTime s, deadline s, statusIcon s)))
     (createTimeAwareSchedule
         [errand ''b'' 5 5 (DurationNumber 30) True (IsoTimestamp 600000)]
         [\<lparr> duration_seconds = 300 \<rparr>])
     = Inr [(Some (Some 300000), Some (Some 600000), ON_TIME)] \<and>
   (600000 - 300000 :: int) = 5 * 60000"
  by (simp add: createTimeAwareSchedule_forward_def schedule_item_def schedule_entry_def
        statusIcon_forward_def statusIcon_def BUFFER_MINUTES_def ceil_div_60_code errand_def Let_def)

text \<open>
  C3. With as many legs as tasks the forward builder returns a schedule of that length
  in which, the clock starting at the start time and then being the previous entry's
  \<open>endTime\<close>, each entry's \<open>startTime\<close> is the clock plus the leg's travel minutes, the
  ceiling of its seconds over 60, and its \<open>endTime\<close> is the \<open>startTime\<close> plus the task's
  duration; the entry records the travel minutes, and 61 seconds are 2 minutes.
\<close>

theorem forward_accumulation_recurrence:
  assumes "length legs = length tasks"
  shows "\<exists>sched. createTimeAwareSchedule_forward tasks legs currentTime = Inr sched \<and>
           length sched = length tasks \<and>
           (\<forall>i<length tasks.
              taskId_item (sched ! i) = task_id (tasks ! i) \<and>
              travelMinutes_item (sched ! i) = \<lceil>real_of_int (duration_seconds (legs ! i)) / 60\<rceil> \<and>
              startTime (sched ! i) =
                num_add (if i = 0 then currentTime else endTime (sched ! (i - 1)))
                        (Some (travelMinutes_item (sched ! i) * 60000)) \<and>
              endTime (sched ! i) =
                num_add (startTime (sched ! i))
                        (num_mul (duration_to_number (durationMinutes (tasks ! i))) (Some 60000))) \<and>
           ceil_div_60 61 = 2"
proof -
  obtain sched where s: "forward_loop tasks legs currentTime = Inr sched"
      and l: "length sched = length tasks"
    using forward_loop_total [of tasks legs currentTime] assms by auto
  have "\<forall>i<length tasks.
              taskId_item (sched ! i) = task_id (tasks ! i) \<and>
              travelMinutes_item (sched ! i) = \<lceil>real_of_int (duration_seconds (legs ! i)) / 60\<rceil> \<and>
              startTime (sched ! i) =
                num_add (if i = 0 then currentTime else endTime (sched ! (i - 1)))
                        (Some (travelMinutes_item (sched ! i) * 60000)) \<and>
              endTime (sched ! i) =
                num_add (startTime (sched ! i))
                        (num_mul (duration_to_number (durationMinutes (tasks ! i))) (Some 60000))"
  proof (intro allI impI)
    fix i assume i: "i < length tasks"
    show "taskId_item (sched ! i) = task_id (tasks ! i) \<and>
              travelMinutes_item (sched ! i) = \<lceil>real_of_int (duration_seconds (legs ! i)) / 60\<rceil> \<and>
              startTime (sched ! i) =
                num_add (if i = 0 then currentTime else endTime (sched ! (i - 1)))
                        (Some (travelMinutes_item (sched ! i) * 60000)) \<and>
              endTime (sched ! i) =
                num_add (startTime (sched ! i))
                        (num_mul (duration_to_number (durationMinutes (tasks ! i))) (Some 60000))"
      using forward_loop_recurrence [OF assms s i]
      by (simp add: num_mul_60_1000 ceil_div_60_def mult.commute)
  qed
  moreover have "ceil_div_60 61 = 2"
    by (simp add: ceil_div_60_code)
  ultimately show ?thesis
    using s l by (simp add: createTimeAwareSchedule_forward_def)
qed

theorem forward_accumulation_recurrence_witness:
  "map_sum id (map (\<lambda>s. (travelMinutes_item s, startTime s, endTime s)))
     (createTimeAwareSchedule_forward
        [errand ''a'' 1 1 (DurationNumber 30) False DeadlineNull,
         errand ''b'' 5 5 (DurationNumber 45) True (IsoTimestamp 32400000)]
        [\<lparr> duration_seconds = 61 \<rparr>, \<lparr> duration_seconds = 600 \<rparr>] (Some 0))
   = Inr [(2, Some 120000, Some 1920000), (10, Some 2520000, Some 5220000)]"
  using forward_accumulation_recurrence [of
        "[\<lparr> duration_seconds = 61 \<rparr>, \<lparr> duration_seconds = 600 \<rparr>]"
        "[errand ''a'' 1 1 (DurationNumber 30) False DeadlineNull,
         errand ''b'' 5 5 (DurationNumber 45) True (IsoTimestamp 32400000)]" "Some 0"]
  by (simp add: createTimeAwareSchedule_forward_def schedule_item_def ceil_div_60_code errand_def)

text \<open>
  C4. In the backward-from-deadline schedule, the entry of a fixed stop with deadline \<open>T\<close>
  has \<open>arriveTime\<close> \<open>T\<close> minus 5 minutes and \<open>departTime\<close> that \<open>arriveTime\<close> minus the leg's
  travel minutes, the ceiling of its seconds over 60; the entry of a flexible stop has
  \<open>null\<close> for both, as has that of a stop flagged fixed whose \<open>mustArriveBy\<close> is falsy.
\<close>

theorem backward_from_deadline_times:
  assumes "length tasks \<le> length legs" and "i < length tasks"
  shows "\<exists>sched. createTimeAwareSchedule tasks legs = Inr sched \<and>
           length sched = length tasks \<and>
           taskId (sched ! i) = task_id (tasks ! i) \<and>
           travelMinutes (sched ! i) = \<lceil>real_of_int (duration_seconds (legs ! i)) / 60\<rceil> \<and>
           (fixedTime (tasks ! i) \<and> mustArriveBy (tasks ! i) = IsoTimestamp T \<longrightarrow>
              arriveTime (sched ! i) = Some (Some (T - 5 * 60000)) \<and>
              departTime (sched ! i)
                = Some (Some (T - 5 * 60000 - travelMinutes (sched ! i) * 60000))) \<and>
           (\<not> fixedTime (tasks ! i) \<longrightarrow>
              arriveTime (sched ! i) = None \<and> departTime (sched ! i) = None) \<and>
           (fixedTime (tasks ! i) \<and> \<not> deadline_truthy (mustArriveBy (tasks ! i)) \<longrightarrow>
              arriveTime (sched ! i) = None \<and> departTime (sched ! i) = None)"
proof -
  have i': "i < length legs"
    using assms by simp
  have s: "createTimeAwareSchedule tasks legs
             = Inr (map (\<lambda>(t, l). schedule_entry t l) (zip tasks legs))"
    using assms(1) by (rule backward_total)
  have e: "map (\<lambda>(t, l). schedule_entry t l) (zip tasks legs) ! i
             = schedule_entry (tasks ! i) (legs ! i)"
    using assms(2) i' by simp
  show ?thesis
    unfolding s using assms
    by (simp add: e schedule_entry_def Let_def BUFFER_MINUTES_def ceil_div_60_def)
qed

theorem backward_from_deadline_times_witness:
  "map_sum id (map (\<lambda>s. (travelMinutes s, departTime s, arriveTime s)))
     (createTimeAwareSchedule
        [errand ''b'' 5 5 (DurationNumber 45) True (IsoTimestamp 32400000),
         errand ''a'' 1 1 (DurationNumber 30) False DeadlineNull]
        [\<lparr> duration_seconds = 61 \<rparr>, \<lparr> duration_seconds = 600 \<rparr>])
   = Inr [(2, Some (Some 31980000), Some (Some 32100000)), (10, None, None)]"
  using backward_from_deadline_times [of
        "[errand ''b'' 5 5 (DurationNumber 45) True (IsoTimestamp 32400000),
         errand ''a'' 1 1 (DurationNumber 30) False DeadlineNull]"
        "[\<lparr> duration_seconds = 61 \<rparr>, \<lparr> duration_seconds = 600 \<rparr>]" 0 32400000]
  by (simp add: schedule_entry_def BUFFER_MINUTES_def ceil_div_60_code errand_def Let_def)

text \<open>
  C5. The flexible tasks are ordered by one stable sort on the distance to a single
  anchor: the location of the last fixed task of the final order when there is a fixed
  task, the origin otherwise. No flexible task serves as a reference for another.
\<close>

theorem flexible_sorted_by_distance_to_anchor:
  "drop (fixedCount tasks) (calculateOptimalRoute d u tasks) =
     (let fixedTasks = take (fixedCount tasks) (calculateOptimalRoute d u tasks);
          anchor = (if fixedCount tasks > 0 then (lat (last fixedTasks), lng (last fixedTasks))
                    else (lat u, lng u))
      in sort_key (\<lambda>t. d (fst anchor) (snd anchor) (lat t) (lng t))
           (filter (\<lambda>t. \<not> fixedTime t) tasks))"
  by (subst drop_route) (simp add: by_distance_sort Let_def)

text \<open>
  Three flexible tasks on a line, at 1, 3 and -2 from the origin, and no fixed task: the
  order is by distance to the origin, 1, -2, 3; a walk to the nearest remaining task would
  go from 1 to 3.
\<close>

theorem flexible_sorted_by_distance_to_anchor_witness:
  "map task_id (calculateOptimalRoute taxicab origin
     [errand ''p'' 1 0 (DurationNumber 30) False DeadlineNull,
      errand ''q'' 3 0 (DurationNumber 30) False DeadlineNull,
      errand ''r'' (- 2) 0 (DurationNumber 30) False DeadlineNull]) = [''p'', ''r'', ''q'']"
proof -
  let ?ts = "[errand ''p'' 1 0 (DurationNumber 30) False DeadlineNull,
      errand ''q'' 3 0 (DurationNumber 30) False DeadlineNull,
      errand ''r'' (- 2) 0 (DurationNumber 30) False DeadlineNull]"
  have n: "fixedCount ?ts = 0"
    by (simp add: fixedCount_def errand_def)
  have "calculateOptimalRoute taxicab origin ?ts =
          sort_key (\<lambda>t. taxicab (lat origin) (lng origin) (lat t) (lng t))
            (filter (\<lambda>t. \<not> fixedTime t) ?ts)"
    using flexible_sorted_by_distance_to_anchor [of ?ts taxicab origin]
    unfolding n by (simp add: Let_def)
  then show ?thesis
    by (simp add: errand_def origin_def taxicab_def)
qed

text \<open>
  C6. The final order is a permutation of the input: the same multiset of tasks, hence of
  task ids; the empty list gives the empty order.
\<close>

theorem final_order_is_permutation:
  "mset (calculateOptimalRoute d u tasks) = mset tasks \<and>
   mset (map task_id (calculateOptimalRoute d u tasks)) = mset (map task_id tasks) \<and>
   calculateOptimalRoute d u [] = []"
proof -
  have m: "mset (calculateOptimalRoute d u tasks) = mset tasks"
    by (simp add: route_split mset_Array_sort)
  have "mset (map task_id (calculateOptimalRoute d u tasks)) = image_mset task_id (mset tasks)"
    using m by (metis mset_map)
  moreover have "calculateOptimalRoute d u [] = []"
    by (simp add: calculateOptimalRoute_def Array_sort_def)
  ultimately show ?thesis using m by simp
qed

text \<open>
  C7, as amended. A malformed task raises nothing: the sequencer returns a permutation of
  the input, and both builders return a schedule for it when there are as many legs as
  tasks. The malformed task is not treated as flexible: it stays in the leading block of
  fixed tasks, and the flexible tasks are exactly the rest of the order. The results are
  the order and the schedule alone; no warning is attached to them.
\<close>

theorem malformed_task_stays_in_fixed_block:
  assumes "m \<in> set tasks" and "malformed m"
  shows "m \<in> set (take (fixedCount tasks) (calculateOptimalRoute d u tasks)) \<and>
         mset (drop (fixedCount tasks) (calculateOptimalRoute d u tasks))
           = mset (filter (\<lambda>t. \<not> fixedTime t) tasks) \<and>
         mset (calculateOptimalRoute d u tasks) = mset tasks \<and>
         (length legs = length tasks \<longrightarrow>
            (\<exists>sched. createTimeAwareSchedule_forward (calculateOptimalRoute d u tasks) legs now
                      = Inr sched \<and> length sched = length tasks) \<and>
            (\<exists>sched. createTimeAwareSchedule (calculateOptimalRoute d u tasks) legs
                      = Inr sched \<and> length sched = length tasks))"
proof -
  let ?out = "calculateOptimalRoute d u tasks"
  have m: "mset ?out = mset tasks"
    by (simp add: route_split mset_Array_sort)
  then have len: "length ?out = length tasks"
    by (metis size_mset)
  have "m \<in> set (filter (\<lambda>t. fixedTime t) tasks)"
    using assms by (simp add: malformed_def)
  then have a: "m \<in> set (take (fixedCount tasks) ?out)"
    by (simp add: take_route set_Array_sort)
  have b: "mset (drop (fixedCount tasks) ?out) = mset (filter (\<lambda>t. \<not> fixedTime t) tasks)"
    by (subst drop_route) (simp add: mset_Array_sort)
  have c: "length legs = length tasks \<longrightarrow>
            (\<exists>sched. createTimeAwareSchedule_forward ?out legs now = Inr sched \<and>
                      length sched = length tasks) \<and>
            (\<exists>sched. createTimeAwareSchedule ?out legs = Inr sched \<and> length sched = length tasks)"
  proof
    assume l: "length legs = length tasks"
    then have le: "length ?out \<le> length legs"
      using len by simp
    have "\<exists>sched. createTimeAwareSchedule_forward ?out legs now = Inr sched \<and>
                      length sched = length tasks"
      using forward_loop_total [OF le, of now] len
      by (simp add: createTimeAwareSchedule_forward_def)
    moreover have "\<exists>sched. createTimeAwareSchedule ?out legs = Inr sched \<and>
                      length sched = length tasks"
      using backward_total [OF le] len l by simp
    ultimately show "(\<exists>sched. createTimeAwareSchedule_forward ?out legs now = Inr sched \<and>
                      length sched = length tasks) \<and>
            (\<exists>sched. createTimeAwareSchedule ?out legs = Inr sched \<and> length sched = length tasks)"
      by simp
  qed
  show ?thesis
    using a b m c by simp
qed

theorem malformed_task_stays_in_fixed_block_witness:
  "errand ''m'' 5 5 (DurationNumber 30) True DeadlineUndefined
     \<in> set (take 1 (calculateOptimalRoute taxicab origin
      [errand ''a'' 1 1 (DurationNumber 30) False DeadlineNull,
       errand ''m'' 5 5 (DurationNumber 30) True DeadlineUndefined])) \<and>
   map_sum id (map (\<lambda>s. (taskId s, departTime s, arriveTime s)))
     (createTimeAwareSchedule (calculateOptimalRoute taxicab origin
      [errand ''a'' 1 1 (DurationNumber 30) False DeadlineNull,
       errand ''m'' 5 5 (DurationNumber 30) True DeadlineUndefined])
      [\<lparr> duration_seconds = 61 \<rparr>, \<lparr> duration_seconds = 600 \<rparr>])
     = Inr [(''m'', None, None), (''a'', None, None)]"
  using malformed_task_stays_in_fixed_block [of
      "errand ''m'' 5 5 (DurationNumber 30) True DeadlineUndefined"
      "[errand ''a'' 1 1 (DurationNumber 30) False DeadlineNull,
       errand ''m'' 5 5 (DurationNumber 30) True DeadlineUndefined]"
      taxicab origin "[\<lparr> duration_seconds = 61 \<rparr>, \<lparr> duration_seconds = 600 \<rparr>]" "Some 0"]
  by (simp add: example_defs malformed_def schedule_entry_def BUFFER_MINUTES_def ceil_div_60_code)

text \<open>
  C7 as stated fails: a fixed task without a deadline is ordered first, ahead of the
  flexible task, where the sequencer run on the task treated as flexible orders it last.
\<close>

theorem malformed_task_is_ordered_as_fixed:
  "malformed (errand ''m'' 5 5 (DurationNumber 30) True DeadlineUndefined) \<and>
   map task_id (calculateOptimalRoute taxicab origin
      [errand ''a'' 1 1 (DurationNumber 30) False DeadlineNull,
       errand ''m'' 5 5 (DurationNumber 30) True DeadlineUndefined]) = [''m'', ''a''] \<and>
   map task_id (calculateOptimalRoute taxicab origin
      (map spec_demote_malformed
        [errand ''a'' 1 1 (DurationNumber 30) False DeadlineNull,
         errand ''m'' 5 5 (DurationNumber 30) True DeadlineUndefined])) = [''a'', ''m'']"
  by (simp add: example_defs malformed_def spec_demote_malformed_def)

text \<open>
  C8. With fewer legs than tasks, both builders raise to the caller (the \<open>TypeError\<close> of
  reading \<open>duration\<close> of the missing leg) and return no schedule.
\<close>

theorem short_leg_list_raises:
  assumes "length legs < length tasks"
  shows "createTimeAwareSchedule_forward tasks legs currentTime = Inl TypeError \<and>
         createTimeAwareSchedule tasks legs = Inl TypeError"
  using assms
  by (simp add: createTimeAwareSchedule_forward_def forward_loop_raises backward_raises)

theorem short_leg_list_raises_witness:
  "createTimeAwareSchedule_forward
     [errand ''a'' 1 1 (DurationNumber 30) False DeadlineNull,
      errand ''b'' 5 5 (DurationNumber 45) True (IsoTimestamp 32400000)]
     [\<lparr> duration_seconds = 61 \<rparr>] (Some 0) = Inl TypeError \<and>
   createTimeAwareSchedule
     [errand ''a'' 1 1 (DurationNumber 30) False DeadlineNull,
      errand ''b'' 5 5 (DurationNumber 45) True (IsoTimestamp 32400000)]
     [\<lparr> duration_seconds = 61 \<rparr>] = Inl TypeError"
  using short_leg_list_raises [of "[\<lparr> duration_seconds = 61 \<rparr>]"
     "[errand ''a'' 1 1 (DurationNumber 30) False DeadlineNull,
      errand ''b'' 5 5 (DurationNumber 45) True (IsoTimestamp 32400000)]" "Some 0"]
  by simp

text \<open>
  C9 fails on the forward builder: for a task without \<open>durationMinutes\<close> its \<open>endTime\<close> is the
  Invalid Date, not the \<open>startTime\<close> plus 30 minutes, and every later stop inherits the
  invalid clock. The backward-from-deadline builder reports 30 for the same task.
\<close>

theorem missing_duration_gives_invalid_end:
  "map_sum id (map (\<lambda>s. (startTime s, endTime s)))
     (createTimeAwareSchedule_forward
        [errand ''a'' 1 1 DurationUndefined False DeadlineNull,
         errand ''b'' 5 5 (DurationNumber 45) True (IsoTimestamp 32400000)]
        [\<lparr> duration_seconds = 61 \<rparr>, \<lparr> duration_seconds = 600 \<rparr>] (Some 0))
     = Inr [(Some 120000, None), (None, None)] \<and>
   map_sum id (map durationMinutes_entry)
     (createTimeAwareSchedule
        [errand ''a'' 1 1 DurationUndefined False DeadlineNull,
         errand ''b'' 5 5 (DurationNumber 45) True (IsoTimestamp 32400000)]
        [\<lparr> duration_seconds = 61 \<rparr>, \<lparr> duration_seconds = 600 \<rparr>])
     = Inr [30, 45]"
  by (simp add: createTimeAwareSchedule_forward_def schedule_item_def schedule_entry_def
        BUFFER_MINUTES_def ceil_div_60_code errand_def Let_def)

text \<open>
  C10. In the backward-from-deadline builder a task whose \<open>durationMinutes\<close> is exactly 0
  is reported with \<open>durationMinutes\<close> 30, and its whole entry equals the entry of the same
  task with the duration missing.
\<close>

theorem zero_duration_coerced_to_default:
  "durationMinutes_entry (schedule_entry (t\<lparr>durationMinutes := DurationNumber 0\<rparr>) l) = 30 \<and>
   schedule_entry (t\<lparr>durationMinutes := DurationNumber 0\<rparr>) l
     = schedule_entry (t\<lparr>durationMinutes := DurationUndefined\<rparr>) l \<and>
   createTimeAwareSchedule [t\<lparr>durationMinutes := DurationNumber 0\<rparr>] [l]
     = createTimeAwareSchedule [t\<lparr>durationMinutes := DurationUndefined\<rparr>] [l]"
  by (simp add: schedule_entry_def Let_def)

end
